theory Spec2Isabelle
  imports Complex_Main
begin

section \<open>Python values, errors and dictionary access\<close>

text \<open>
  Pool events are the nested dictionaries that the stream decoder delivers. A value is
  None, a bool, an int, a float, a string, a list or a dictionary with string keys (an
  association list, looked up with \<open>map_of\<close>).

  Numbers are exact: a Python float is a \<open>real\<close>, so rounding, overflow, infinities
  and NaN of IEEE doubles are outside this development.
\<close>

datatype pyval =
    PNone
  | PBool bool
  | PInt int
  | PFloat real
  | PStr string
  | PList "pyval list"
  | PDict "(string \<times> pyval) list"

datatype error = AttributeError | TypeError | ZeroDivisionError

definition bindE :: "error + 'a \<Rightarrow> ('a \<Rightarrow> error + 'b) \<Rightarrow> error + 'b" where
  "bindE m f = (case m of Inl e \<Rightarrow> Inl e | Inr x \<Rightarrow> f x)"

text \<open>\<open>d.get(k, default)\<close>: only a dictionary has the method.\<close>

fun py_get :: "pyval \<Rightarrow> string \<Rightarrow> pyval \<Rightarrow> error + pyval" where
  "py_get (PDict kvs) k d = Inr (case map_of kvs k of Some v \<Rightarrow> v | None \<Rightarrow> d)"
| "py_get _ k d = Inl AttributeError"

text \<open>Truth value of an object, as \<open>if not x\<close> tests it.\<close>

fun truthy :: "pyval \<Rightarrow> bool" where
  "truthy PNone = False"
| "truthy (PBool b) = b"
| "truthy (PInt i) = (i \<noteq> 0)"
| "truthy (PFloat x) = (x \<noteq> 0)"
| "truthy (PStr s) = (s \<noteq> [])"
| "truthy (PList xs) = (xs \<noteq> [])"
| "truthy (PDict kvs) = (kvs \<noteq> [])"

section \<open>The built-in parsers \<open>int(s, 16)\<close>, \<open>int(s)\<close> and \<open>float(s)\<close>\<close>

text \<open>
  The parsers of the language on ASCII strings: surrounding whitespace is stripped, a sign
  may lead, base 16 accepts the prefix \<open>0x\<close>, and single underscores may separate
  digits. \<open>None\<close> stands for the \<open>ValueError\<close> that the callers catch.
\<close>

definition is_space :: "char \<Rightarrow> bool" where
  "is_space c = (let n = (of_char c :: nat) in (9 \<le> n \<and> n \<le> 13) \<or> (28 \<le> n \<and> n \<le> 32))"

definition strip :: "string \<Rightarrow> string" where
  "strip s = rev (dropWhile is_space (rev (dropWhile is_space s)))"

definition digit_of :: "char \<Rightarrow> nat option" where
  "digit_of c = (let n = (of_char c :: nat) in
     if 48 \<le> n \<and> n \<le> 57 then Some (n - 48)
     else if 97 \<le> n \<and> n \<le> 122 then Some (n - 87)
     else if 65 \<le> n \<and> n \<le> 90 then Some (n - 55)
     else None)"

definition is_digit :: "char \<Rightarrow> bool" where
  "is_digit c = (let n = (of_char c :: nat) in 48 \<le> n \<and> n \<le> 57)"

text \<open>
  Digits of base \<open>b\<close> with single underscores between them; \<open>ok\<close> records that the
  previous character was a digit.
\<close>

fun scan_digits :: "nat \<Rightarrow> bool \<Rightarrow> nat \<Rightarrow> string \<Rightarrow> nat option" where
  "scan_digits b ok acc [] = (if ok then Some acc else None)"
| "scan_digits b ok acc (c # cs) =
     (if c = CHR ''_'' then (if ok then scan_digits b False acc cs else None)
      else (case digit_of c of
              None \<Rightarrow> None
            | Some d \<Rightarrow> if d < b then scan_digits b True (acc * b + d) cs else None))"

definition split_sign :: "string \<Rightarrow> int \<times> string" where
  "split_sign s = (case s of
       [] \<Rightarrow> (1, [])
     | c # cs \<Rightarrow> if c = CHR ''-'' then (- 1, cs) else if c = CHR ''+'' then (1, cs) else (1, s))"

definition skip_prefix :: "nat \<Rightarrow> string \<Rightarrow> string" where
  "skip_prefix b s =
     (if b = 16 \<and> (take 2 s = ''0x'' \<or> take 2 s = ''0X'')
      then (case drop 2 s of c # cs \<Rightarrow> if c = CHR ''_'' then cs else c # cs | [] \<Rightarrow> [])
      else s)"

definition py_int :: "nat \<Rightarrow> string \<Rightarrow> int option" where
  "py_int b s =
     (let (sg, u) = split_sign (strip s) in
      map_option (\<lambda>n. sg * int n) (scan_digits b False 0 (skip_prefix b u)))"

fun underscores_ok :: "char option \<Rightarrow> string \<Rightarrow> bool" where
  "underscores_ok p [] = True"
| "underscores_ok p (c # cs) =
     ((if c = CHR ''_''
       then (case p of Some q \<Rightarrow> is_digit q | None \<Rightarrow> False) \<and>
            (case cs of d # _ \<Rightarrow> is_digit d | [] \<Rightarrow> False)
       else True) \<and> underscores_ok (Some c) cs)"

definition dec_val :: "string \<Rightarrow> nat" where
  "dec_val s = foldl (\<lambda>a c. 10 * a + (of_char c - 48)) 0 s"

definition float_exponent :: "string \<Rightarrow> real option" where
  "float_exponent r =
     (case r of
        [] \<Rightarrow> Some 1
      | e # r' \<Rightarrow>
          if e = CHR ''e'' \<or> e = CHR ''E'' then
            (let (sg, ds) = split_sign r' in
             if ds \<noteq> [] \<and> list_all is_digit ds
             then Some (if sg < 0 then 1 / 10 ^ dec_val ds else 10 ^ dec_val ds)
             else None)
          else None)"

text \<open>
  \<open>float(s)\<close> on a decimal literal. The callers reach it only for a string that
  contains a dot, which the spellings of infinity and NaN do not.
\<close>

definition py_float :: "string \<Rightarrow> real option" where
  "py_float s =
     (let t = strip s in
      if \<not> underscores_ok None t then None
      else
        (let (sg, v) = split_sign (filter (\<lambda>c. c \<noteq> CHR ''_'') t);
             ip = takeWhile is_digit v;
             r1 = dropWhile is_digit v;
             (fp, r2) = (case r1 of
                           [] \<Rightarrow> ([], [])
                         | c # r \<Rightarrow> if c = CHR ''.''
                                     then (takeWhile is_digit r, dropWhile is_digit r)
                                     else ([], r1))
         in if ip = [] \<and> fp = [] then None
            else map_option
                   (\<lambda>ex. of_int sg * (of_nat (dec_val ip) + of_nat (dec_val fp) / 10 ^ length fp) * ex)
                   (float_exponent r2)))"

section \<open>utils.py\<close>

definition is_hex_char :: "char \<Rightarrow> bool" where
  "is_hex_char c = (c \<in> set ''0123456789abcdefABCDEF'')"

text \<open>The decimal attempt shared by the decoder and \<open>safe_to_numeric\<close>.\<close>

definition parse_decimal :: "string \<Rightarrow> pyval option" where
  "parse_decimal s =
     (if CHR ''.'' \<in> set s then map_option PFloat (py_float s)
      else map_option PInt (py_int 10 s))"

fun num_of :: "pyval \<Rightarrow> real" where
  "num_of (PInt i) = of_int i"
| "num_of (PFloat x) = x"
| "num_of (PBool b) = (if b then 1 else 0)"
| "num_of _ = 0"

text \<open>
  \<open>safe_to_numeric\<close>: a number (a bool is an int) is returned as it is; a string is
  tried as hexadecimal when it starts with \<open>0x\<close> or consists of hex digits, then as a
  decimal; everything else is 0. The result is read as its numeric value.
\<close>

fun safe_to_numeric :: "pyval \<Rightarrow> real" where
  "safe_to_numeric (PInt i) = of_int i"
| "safe_to_numeric (PFloat x) = x"
| "safe_to_numeric (PBool b) = (if b then 1 else 0)"
| "safe_to_numeric (PStr s) =
     (case (if take 2 s = ''0x'' \<or> (s \<noteq> [] \<and> list_all is_hex_char s)
            then py_int 16 s else None) of
        Some i \<Rightarrow> of_int i
      | None \<Rightarrow> (case parse_decimal s of Some v \<Rightarrow> num_of v | None \<Rightarrow> 0))"
| "safe_to_numeric _ = 0"

definition get_currency_decimals :: "pyval \<Rightarrow> string \<Rightarrow> error + pyval" where
  "get_currency_decimals pool_event currency =
     bindE (py_get pool_event ''Pool'' (PDict [])) (\<lambda>pool.
     bindE (if currency = ''A'' then py_get pool ''CurrencyA'' (PDict [])
            else py_get pool ''CurrencyB'' (PDict [])) (\<lambda>currency_obj.
     py_get currency_obj ''Decimals'' (PInt 18)))"

section \<open>strategy_config.py\<close>

definition WAIT_TIME_SECONDS :: real where "WAIT_TIME_SECONDS = 2"
definition MAX_POSITION_SIZE_RATIO :: real where "MAX_POSITION_SIZE_RATIO = 5 / 100"
definition MIN_POSITION_SIZE :: real where "MIN_POSITION_SIZE = 1 / 100"
definition STOP_LOSS_BASIS_POINTS :: real where "STOP_LOSS_BASIS_POINTS = 100"
definition TAKE_PROFIT_BASIS_POINTS :: real where "TAKE_PROFIT_BASIS_POINTS = 50"
definition FLOW_DETECTION_WINDOW_SECONDS :: real where "FLOW_DETECTION_WINDOW_SECONDS = 30"
definition MAX_SAME_DIRECTION_EVENTS :: nat where "MAX_SAME_DIRECTION_EVENTS = 1"

section \<open>price_impact.py\<close>

type_synonym impact = "real \<times> string \<times> real"





section \<open>position_sizing.py\<close>

text \<open>
  \<open>10 ** decimals\<close>: an int power for a non-negative int (a bool is 0 or 1), a float for
  a negative int or a float exponent, a \<open>TypeError\<close> for anything else.
\<close>

fun pow10 :: "pyval \<Rightarrow> error + real" where
  "pow10 (PInt d) = Inr (if 0 \<le> d then 10 ^ nat d else 1 / 10 ^ nat (- d))"
| "pow10 (PBool b) = Inr (if b then 10 else 1)"
| "pow10 (PFloat x) = Inr (10 powr x)"
| "pow10 _ = Inl TypeError"

text \<open>The factor \<open>max(0.1, 1.0 / (1.0 + impact_bp / 1000.0))\<close>, defined when the divisor is not 0.\<close>

definition impact_factor :: "real \<Rightarrow> real" where
  "impact_factor impact_bp = max (1 / 10) (1 / (1 + impact_bp / 1000))"

definition calculate_position_size :: "pyval \<Rightarrow> real \<Rightarrow> string \<Rightarrow> error + real" where
  "calculate_position_size pool_event impact_bp fade_dir =
     bindE (py_get pool_event ''Liquidity'' (PDict [])) (\<lambda>liquidity.
     bindE (py_get liquidity ''AmountCurrencyA'' (PInt 0)) (\<lambda>av.
     bindE (py_get liquidity ''AmountCurrencyB'' (PInt 0)) (\<lambda>bv.
       let amount_a = safe_to_numeric av; amount_b = safe_to_numeric bv
       in bindE (if fade_dir = ''BtoA''
                 then bindE (get_currency_decimals pool_event ''A'') (\<lambda>d. Inr (amount_a, d))
                 else bindE (get_currency_decimals pool_event ''B'') (\<lambda>d. Inr (amount_b, d)))
            (\<lambda>(base_liquidity, decimals).
               if base_liquidity = 0 then Inr 0
               else if 1 + impact_bp / 1000 = 0 then Inl ZeroDivisionError
               else
                 (let position_size_raw =
                        base_liquidity * MAX_POSITION_SIZE_RATIO * impact_factor impact_bp
                  in bindE (pow10 decimals) (\<lambda>p.
                       let min_position_size_raw = MIN_POSITION_SIZE * p
                       in Inr (max position_size_raw min_position_size_raw)))))))"

section \<open>flow_detector.py and signal_generator.py\<close>

text \<open>
  The two module-level dictionaries are the state. A dictionary key is the hashed pool id:
  numbers of equal value are one key, a list or a dictionary cannot be hashed.
\<close>

datatype pykey = KNone | KNum real | KStr string

fun key_of :: "pyval \<Rightarrow> error + pykey" where
  "key_of PNone = Inr KNone"
| "key_of (PBool b) = Inr (KNum (if b then 1 else 0))"
| "key_of (PInt i) = Inr (KNum (of_int i))"
| "key_of (PFloat x) = Inr (KNum x)"
| "key_of (PStr s) = Inr (KStr s)"
| "key_of (PList xs) = Inl TypeError"
| "key_of (PDict kvs) = Inl TypeError"

text \<open>A retained flow record \<open>{'direction': d, 'time': t}\<close> is the pair \<open>(d, t)\<close>.\<close>

type_synonym flow_record = "string \<times> real"

text \<open>The signal dictionary built by \<open>create_fade_signal\<close>, one field per key.\<close>

record signal =
  pool_id :: pyval
  pool_address :: pyval
  currency_a :: pyval
  currency_b :: pyval
  swap_direction :: string
  fade_direction :: string
  impact_basis_points :: real
  swap_size :: real
  swap_size_decimals :: pyval
  position_size :: real
  position_size_decimals :: pyval
  entry_time :: real
  stop_loss_bp :: real
  take_profit_bp :: real
  status :: string

record state =
  pool_event_history :: "pykey \<Rightarrow> flow_record list option"
  active_positions :: "pykey \<Rightarrow> signal option"

text \<open>What a \<open>deque\<close> with \<open>maxlen=10\<close> keeps of a sequence: its last ten items.\<close>

definition maxlen10 :: "'a list \<Rightarrow> 'a list" where
  "maxlen10 xs = drop (length xs - 10) xs"

definition recent_events :: "real \<Rightarrow> flow_record list \<Rightarrow> flow_record list" where
  "recent_events current_time history =
     filter (\<lambda>event. current_time - snd event < FLOW_DETECTION_WINDOW_SECONDS) history"

definition same_direction_count :: "string \<Rightarrow> flow_record list \<Rightarrow> nat" where
  "same_direction_count dir events = length (filter (\<lambda>event. fst event = dir) events)"

definition is_isolated_shock :: "pykey \<Rightarrow> string \<Rightarrow> real \<Rightarrow> state \<Rightarrow> bool \<times> state" where
  "is_isolated_shock pid dir current_time st =
     (let history = (case pool_event_history st pid of None \<Rightarrow> [] | Some h \<Rightarrow> h);
          recent = recent_events current_time history;
          n = same_direction_count dir recent;
          st' = st\<lparr>pool_event_history :=
                    (pool_event_history st)(pid \<mapsto> maxlen10 (maxlen10 recent @ [(dir, current_time)]))\<rparr>
      in (n \<le> MAX_SAME_DIRECTION_EVENTS, st'))"

text \<open>\<open>Time // 1_000_000_000\<close>: floor division of a number, a \<open>TypeError\<close> otherwise.\<close>

fun to_seconds :: "pyval \<Rightarrow> error + real" where
  "to_seconds (PInt i) = Inr (of_int (i div 1000000000))"
| "to_seconds (PBool b) = Inr 0"
| "to_seconds (PFloat x) = Inr (of_int \<lfloor>x / 1000000000\<rfloor>)"
| "to_seconds _ = Inl TypeError"

text \<open>
  \<open>should_fade\<close> returns its verdict with the state it leaves. The pool id is hashed where
  \<open>is_isolated_shock\<close> first looks it up.
\<close>

definition should_fade :: "pyval \<Rightarrow> impact \<Rightarrow> state \<Rightarrow> error + (bool \<times> state)" where
  "should_fade pool_event impact_data st =
     (let (impact_bp, dir, size) = impact_data in
      bindE (py_get pool_event ''Pool'' (PDict [])) (\<lambda>pool.
      bindE (py_get pool ''PoolId'' (PStr [])) (\<lambda>pid.
        if \<not> truthy pid then Inr (False, st)
        else
          bindE (py_get pool_event ''TransactionHeader'' (PDict [])) (\<lambda>tx_header.
          bindE (py_get tx_header ''Time'' (PInt 0)) (\<lambda>tv.
          bindE (to_seconds tv) (\<lambda>event_time.
          bindE (key_of pid) (\<lambda>k.
            let (isolated, st') = is_isolated_shock k dir event_time st
            in if \<not> isolated then Inr (False, st')
               else if active_positions st' k \<noteq> None then Inr (False, st')
               else Inr (True, st'))))))))"

definition get_active_positions :: "state \<Rightarrow> pykey \<Rightarrow> signal option" where
  "get_active_positions st = active_positions st"

definition add_position :: "pyval \<Rightarrow> signal \<Rightarrow> state \<Rightarrow> error + state" where
  "add_position pid sg st =
     bindE (key_of pid) (\<lambda>k. Inr (st\<lparr>active_positions := (active_positions st)(k \<mapsto> sg)\<rparr>))"

definition has_position :: "pyval \<Rightarrow> state \<Rightarrow> error + bool" where
  "has_position pid st = bindE (key_of pid) (\<lambda>k. Inr (active_positions st k \<noteq> None))"

section \<open>strategy.py: deciding and registering\<close>

text \<open>
  The steps of \<open>process_pool_event\<close> that touch the registry: the pool id is read, an
  empty one ends the step, and a signal is stored with \<open>add_position\<close> only when
  \<open>should_fade\<close> says so. The impact data and the signal to store are arguments here:
  the impact analysis, the construction of the signal and the diagnostics printed in
  between are not part of the step. The result names the key under which a signal was
  stored, if one was.
\<close>

definition register_fade ::
  "pyval \<Rightarrow> impact \<Rightarrow> signal \<Rightarrow> state \<Rightarrow> error + (pykey option \<times> state)" where
  "register_fade pool_event impact_data sg st =
     bindE (py_get pool_event ''Pool'' (PDict [])) (\<lambda>pool.
     bindE (py_get pool ''PoolId'' (PStr [])) (\<lambda>pid.
       if \<not> truthy pid then Inr (None, st)
       else
         bindE (should_fade pool_event impact_data st) (\<lambda>(fade, st1).
           if fade
           then bindE (add_position pid sg st1) (\<lambda>st2.
                bindE (key_of pid) (\<lambda>k. Inr (Some k, st2)))
           else Inr (None, st1))))"

text \<open>A sequence of events, one after the other; an exception ends the run.\<close>

fun run_events ::
  "state \<Rightarrow> (pyval \<times> impact \<times> signal) list \<Rightarrow> error + (state \<times> pykey list)" where
  "run_events st [] = Inr (st, [])"
| "run_events st ((pool_event, impact_data, sg) # rest) =
     bindE (register_fade pool_event impact_data sg st) (\<lambda>(r, st1).
     bindE (run_events st1 rest) (\<lambda>(st2, ks).
       Inr (st2, (case r of Some k \<Rightarrow> k # ks | None \<Rightarrow> ks))))"

section \<open>position_manager.py\<close>

text \<open>\<open>time.time()\<close> is the argument \<open>now\<close>.\<close>

definition monitor_positions :: "real \<Rightarrow> pyval \<Rightarrow> state \<Rightarrow> error + state" where
  "monitor_positions now current_pool_state st =
     bindE (py_get current_pool_state ''Pool'' (PDict [])) (\<lambda>pool.
     bindE (py_get pool ''PoolId'' (PStr [])) (\<lambda>pid.
     bindE (key_of pid) (\<lambda>k.
       case get_active_positions st k of
         None \<Rightarrow> Inr st
       | Some position \<Rightarrow>
           if now < entry_time position then Inr st
           else
             (let st' = (if status position = ''pending''
                         then st\<lparr>active_positions :=
                                   (active_positions st)(k \<mapsto> position\<lparr>status := ''entered''\<rparr>)\<rparr>
                         else st)
              in bindE (py_get current_pool_state ''PoolPriceTable'' (PDict []))
                   (\<lambda>pool_price_table. Inr st')))))"

section \<open>bitquery.py: the numeric coercion of the decoder\<close>






section \<open>Reading an event\<close>

text \<open>
  Total readers of the fields that the claims speak of. On a dictionary \<open>field\<close> is
  \<open>py_get\<close>; the predicates below say which parts of an event are containers.
\<close>

fun is_dict :: "pyval \<Rightarrow> bool" where
  "is_dict (PDict kvs) = True"
| "is_dict _ = False"

definition field :: "pyval \<Rightarrow> string \<Rightarrow> pyval \<Rightarrow> pyval" where
  "field v k d = (case py_get v k d of Inr x \<Rightarrow> x | Inl e \<Rightarrow> d)"







definition reserve_a :: "pyval \<Rightarrow> real" where
  "reserve_a ev =
     safe_to_numeric (field (field ev ''Liquidity'' (PDict [])) ''AmountCurrencyA'' (PInt 0))"

definition reserve_b :: "pyval \<Rightarrow> real" where
  "reserve_b ev =
     safe_to_numeric (field (field ev ''Liquidity'' (PDict [])) ''AmountCurrencyB'' (PInt 0))"




text \<open>The reserve and the decimals of the currency that a fade direction buys.\<close>

definition bought_currency :: "string \<Rightarrow> string" where
  "bought_currency fade_dir = (if fade_dir = ''BtoA'' then ''A'' else ''B'')"

definition bought_reserve :: "pyval \<Rightarrow> string \<Rightarrow> real" where
  "bought_reserve ev fade_dir = (if fade_dir = ''BtoA'' then reserve_a ev else reserve_b ev)"

definition currency_obj :: "pyval \<Rightarrow> string \<Rightarrow> pyval" where
  "currency_obj ev currency =
     field (field ev ''Pool'' (PDict [])) (''Currency'' @ currency) (PDict [])"

definition decimals_of :: "pyval \<Rightarrow> string \<Rightarrow> pyval" where
  "decimals_of ev currency = field (currency_obj ev currency) ''Decimals'' (PInt 18)"

definition sizing_well_typed :: "pyval \<Rightarrow> string \<Rightarrow> bool" where
  "sizing_well_typed ev currency =
     (is_dict ev \<and> is_dict (field ev ''Liquidity'' (PDict [])) \<and>
      is_dict (field ev ''Pool'' (PDict [])) \<and> is_dict (currency_obj ev currency))"

text \<open>What \<open>should_fade\<close> and \<open>monitor_positions\<close> read of an event.\<close>

definition event_pool_id :: "pyval \<Rightarrow> pyval" where
  "event_pool_id ev = field (field ev ''Pool'' (PDict [])) ''PoolId'' (PStr [])"

definition event_time_field :: "pyval \<Rightarrow> pyval" where
  "event_time_field ev = field (field ev ''TransactionHeader'' (PDict [])) ''Time'' (PInt 0)"

text \<open>
  An event reaches the flow check with key \<open>k\<close> and time \<open>t\<close> when its pool id is
  truthy and can be hashed to \<open>k\<close>, and its time converts to \<open>t\<close> seconds.
\<close>

definition reaches_flow_check :: "pyval \<Rightarrow> pykey \<Rightarrow> real \<Rightarrow> bool" where
  "reaches_flow_check ev k t =
     (is_dict ev \<and> is_dict (field ev ''Pool'' (PDict [])) \<and> truthy (event_pool_id ev) \<and>
      is_dict (field ev ''TransactionHeader'' (PDict [])) \<and>
      to_seconds (event_time_field ev) = Inr t \<and> key_of (event_pool_id ev) = Inr k)"

definition history_of :: "state \<Rightarrow> pykey \<Rightarrow> flow_record list" where
  "history_of st k = (case pool_event_history st k of None \<Rightarrow> [] | Some h \<Rightarrow> h)"

section \<open>The impact analysis as the specification words it\<close>









section \<open>The lifecycle step as the specification words it\<close>

text \<open>
  The step \<open>advance\<close> of the registry: nothing happens for a pool without entry or
  before the entry time; from the entry time on a pending position becomes entered. No
  other status is written and no entry is removed.
\<close>

definition spec_advance :: "real \<Rightarrow> pykey \<Rightarrow> state \<Rightarrow> state" where
  "spec_advance now k st =
     (case active_positions st k of
        None \<Rightarrow> st
      | Some p \<Rightarrow>
          if now < entry_time p then st
          else if status p = ''pending''
          then st\<lparr>active_positions := (active_positions st)(k \<mapsto> p\<lparr>status := ''entered''\<rparr>)\<rparr>
          else st)"

section \<open>Concrete events\<close>


definition mk_liquidity :: "int \<Rightarrow> int \<Rightarrow> pyval" where
  "mk_liquidity a b = PDict [(''AmountCurrencyA'', PInt a), (''AmountCurrencyB'', PInt b)]"







text \<open>States, signals and events for the flow check and the registry.\<close>

definition empty_state :: state where
  "empty_state = \<lparr>pool_event_history = (\<lambda>k. None), active_positions = (\<lambda>k. None)\<rparr>"

definition pending_signal :: "string \<Rightarrow> real \<Rightarrow> signal" where
  "pending_signal pid t =
     \<lparr>pool_id = PStr pid, pool_address = PStr ''0xpool'', currency_a = PStr ''WETH'',
      currency_b = PStr ''USDC'', swap_direction = ''AtoB'', fade_direction = ''BtoA'',
      impact_basis_points = 500, swap_size = 50, swap_size_decimals = PInt 18,
      position_size = 20, position_size_decimals = PInt 18,
      entry_time = t + WAIT_TIME_SECONDS, stop_loss_bp = STOP_LOSS_BASIS_POINTS,
      take_profit_bp = TAKE_PROFIT_BASIS_POINTS, status = ''pending''\<rparr>"

definition held_state :: state where
  "held_state = empty_state\<lparr>active_positions := (\<lambda>k. None)(KStr ''P'' \<mapsto> pending_signal ''P'' 100)\<rparr>"

definition flow_event :: "string \<Rightarrow> int \<Rightarrow> pyval" where
  "flow_event pid nanoseconds = PDict [
     (''Pool'', PDict [(''PoolId'', PStr pid)]),
     (''TransactionHeader'', PDict [(''Time'', PInt nanoseconds)])]"

text \<open>
  Two events of pool P, five seconds apart, and one of pool Q, each with impact data and
  the signal that would be stored.
\<close>

definition two_pool_run :: "(pyval \<times> impact \<times> signal) list" where
  "two_pool_run =
     [(flow_event ''P'' 0, (500, ''AtoB'', 50), pending_signal ''P'' 100),
      (flow_event ''P'' 5000000000, (500, ''AtoB'', 50), pending_signal ''P'' 105),
      (flow_event ''Q'' 6000000000, (500, ''AtoB'', 50), pending_signal ''Q'' 106)]"

text \<open>An empty A reserve with six decimals of currency A, and a pool of 10^9 units of A.\<close>

definition empty_reserve_event :: pyval where
  "empty_reserve_event = PDict [
     (''Pool'', PDict [(''CurrencyA'', PDict [(''Decimals'', PInt 6)])]),
     (''Liquidity'', mk_liquidity 0 1000)]"

definition sizing_event :: pyval where
  "sizing_event = PDict [
     (''Pool'', PDict [(''CurrencyA'', PDict [(''Decimals'', PInt 6)])]),
     (''Liquidity'', mk_liquidity 1000000000 1000)]"



section \<open>Basic facts\<close>

lemma bindE_simps [simp]:
  "bindE (Inl e) f = Inl e"
  "bindE (Inr x) f = f x"
  by (simp_all add: bindE_def)

lemma py_get_dict: "is_dict v \<Longrightarrow> py_get v k d = Inr (field v k d)"
  by (cases v) (simp_all add: field_def)

subsection \<open>The tier scan\<close>







section \<open>Claims about the impact analysis\<close>













section \<open>Claims about the position size\<close>

lemma get_currency_decimals_typed:
  assumes "is_dict ev" and "is_dict (field ev ''Pool'' (PDict []))" and "is_dict (currency_obj ev c)"
    and "c = ''A'' \<or> c = ''B''"
  shows "get_currency_decimals ev c = Inr (decimals_of ev c)"
  using assms
  by (auto simp: get_currency_decimals_def py_get_dict decimals_of_def currency_obj_def)

lemma calculate_position_size_typed:
  assumes "sizing_well_typed ev (bought_currency dir)"
  shows "calculate_position_size ev imp dir =
           (if bought_reserve ev dir = 0 then Inr 0
            else if 1 + imp / 1000 = 0 then Inl ZeroDivisionError
            else bindE (pow10 (decimals_of ev (bought_currency dir)))
                   (\<lambda>p. Inr (max (bought_reserve ev dir * MAX_POSITION_SIZE_RATIO * impact_factor imp)
                                  (MIN_POSITION_SIZE * p))))"
proof -
  from assms have d: "is_dict ev" "is_dict (field ev ''Liquidity'' (PDict []))"
    "is_dict (field ev ''Pool'' (PDict []))" "is_dict (currency_obj ev (bought_currency dir))"
    by (simp_all add: sizing_well_typed_def)
  have g: "get_currency_decimals ev (bought_currency dir) = Inr (decimals_of ev (bought_currency dir))"
    by (rule get_currency_decimals_typed [OF d(1,3,4)]) (simp add: bought_currency_def)
  show ?thesis
    using g
    by (simp add: calculate_position_size_def py_get_dict [OF d(1)] py_get_dict [OF d(2)] Let_def
          reserve_a_def [symmetric] reserve_b_def [symmetric] bought_reserve_def bought_currency_def
          split: if_splits)
qed

lemma py_get_Inr: "py_get v k d = Inr x \<Longrightarrow> is_dict v"
  by (cases v) simp_all

lemma get_currency_decimals_Inr:
  assumes "get_currency_decimals ev c = Inr x" and "c = ''A'' \<or> c = ''B''"
  shows "is_dict ev \<and> is_dict (field ev ''Pool'' (PDict [])) \<and> is_dict (currency_obj ev c)"
proof -
  from assms(1) obtain pool where p: "py_get ev ''Pool'' (PDict []) = Inr pool"
    by (cases "py_get ev ''Pool'' (PDict [])") (simp_all add: get_currency_decimals_def)
  then have e: "is_dict ev" by (rule py_get_Inr)
  then have pf: "pool = field ev ''Pool'' (PDict [])" using p by (simp add: py_get_dict)
  from assms p obtain co where c: "py_get pool (''Currency'' @ c) (PDict []) = Inr co"
    by (cases "py_get pool (''Currency'' @ c) (PDict [])") (auto simp: get_currency_decimals_def)
  then have pd: "is_dict pool" by (rule py_get_Inr)
  then have cf: "co = currency_obj ev c" using c pf by (simp add: py_get_dict currency_obj_def)
  from assms p c have "py_get co ''Decimals'' (PInt 18) = Inr x"
    by (auto simp: get_currency_decimals_def)
  then have "is_dict co" by (rule py_get_Inr)
  with e pd pf cf show ?thesis by simp
qed

lemma calculate_position_size_Inr:
  assumes "calculate_position_size ev imp dir = Inr v"
  shows "sizing_well_typed ev (bought_currency dir)"
proof -
  from assms obtain liq where l: "py_get ev ''Liquidity'' (PDict []) = Inr liq"
    by (cases "py_get ev ''Liquidity'' (PDict [])") (simp_all add: calculate_position_size_def)
  then have e: "is_dict ev" by (rule py_get_Inr)
  then have lf: "liq = field ev ''Liquidity'' (PDict [])" using l by (simp add: py_get_dict)
  from assms l obtain av where a: "py_get liq ''AmountCurrencyA'' (PInt 0) = Inr av"
    by (cases "py_get liq ''AmountCurrencyA'' (PInt 0)") (simp_all add: calculate_position_size_def)
  then have ld: "is_dict liq" by (rule py_get_Inr)
  from assms l a ld obtain x where "get_currency_decimals ev (bought_currency dir) = Inr x"
    by (cases "get_currency_decimals ev (bought_currency dir)")
       (auto simp: calculate_position_size_def py_get_dict Let_def bought_currency_def split: if_splits)
  then have "is_dict (field ev ''Pool'' (PDict [])) \<and> is_dict (currency_obj ev (bought_currency dir))"
    using get_currency_decimals_Inr [of ev "bought_currency dir" x] by (simp add: bought_currency_def)
  with e ld lf show ?thesis by (simp add: sizing_well_typed_def)
qed

lemma pow10_pos: "pow10 d = Inr p \<Longrightarrow> 0 < p"
  by (cases d) (auto split: if_splits)


lemma impact_factor_antimono:
  assumes "0 \<le> i1" and "i1 \<le> i2"
  shows "impact_factor i2 \<le> impact_factor i1"
proof -
  have "1 / (1 + i2 / 1000) \<le> 1 / (1 + i1 / 1000)"
    using assms by (intro divide_left_mono) (auto intro: mult_pos_pos add_pos_nonneg)
  then show ?thesis
    unfolding impact_factor_def by (rule max.mono [OF order_refl])
qed

lemma impact_factor_pos: "0 < impact_factor i"
proof -
  have "(0::real) < 1 / 10" by simp
  also have "\<dots> \<le> impact_factor i" by (simp add: impact_factor_def)
  finally show ?thesis .
qed

lemma position_size_antimono:
  assumes "0 \<le> i1" and "i1 \<le> i2" and "0 < p"
  shows "max (x * MAX_POSITION_SIZE_RATIO * impact_factor i2) (MIN_POSITION_SIZE * p)
           \<le> max (x * MAX_POSITION_SIZE_RATIO * impact_factor i1) (MIN_POSITION_SIZE * p)"
proof (cases "0 \<le> x")
  case True
  then have "0 \<le> x * MAX_POSITION_SIZE_RATIO" by (simp add: MAX_POSITION_SIZE_RATIO_def)
  then have "x * MAX_POSITION_SIZE_RATIO * impact_factor i2 \<le> x * MAX_POSITION_SIZE_RATIO * impact_factor i1"
    using impact_factor_antimono [OF assms(1,2)] by (rule mult_left_mono [rotated])
  then show ?thesis by (rule max.mono) simp
next
  case False
  then have "x * MAX_POSITION_SIZE_RATIO < 0" by (simp add: MAX_POSITION_SIZE_RATIO_def)
  then have neg: "\<And>i. x * MAX_POSITION_SIZE_RATIO * impact_factor i < 0"
    using impact_factor_pos by (simp add: mult_neg_pos)
  have "0 < MIN_POSITION_SIZE * p" using assms(3) by (simp add: MIN_POSITION_SIZE_def)
  with neg [of i1] neg [of i2] show ?thesis by (simp add: max_def)
qed

text \<open>
  C5, as amended. For every pool event, every impact_bp and every fade direction, a value
  returned by \<open>calculate_position_size\<close> is never below MIN_POSITION_SIZE * 10^decimals,
  where decimals is the Decimals field of the bought currency (default 18), provided the
  bought-side reserve is not 0.
\<close>

theorem calculate_position_size_floor:
  assumes "calculate_position_size ev imp dir = Inr v" and "bought_reserve ev dir \<noteq> 0"
  shows "\<exists>p. pow10 (decimals_of ev (bought_currency dir)) = Inr p \<and> MIN_POSITION_SIZE * p \<le> v"
proof -
  have wt: "sizing_well_typed ev (bought_currency dir)"
    using assms(1) by (rule calculate_position_size_Inr)
  show ?thesis
    using assms
    by (cases "pow10 (decimals_of ev (bought_currency dir))")
       (auto simp: calculate_position_size_typed [OF wt] split: if_splits)
qed

text \<open>A reserve of 10^9 units with six decimals: the size 45454545.45 is above the floor 10000.\<close>

theorem calculate_position_size_floor_witness:
  "calculate_position_size sizing_event 100 ''BtoA'' = Inr (500000000 / 11) \<and>
   bought_reserve sizing_event ''BtoA'' = 1000000000 \<and>
   pow10 (decimals_of sizing_event (bought_currency ''BtoA'')) = Inr 1000000 \<and>
   MIN_POSITION_SIZE * 1000000 \<le> 500000000 / 11"
proof -
  have c: "calculate_position_size sizing_event 100 ''BtoA'' = Inr (500000000 / 11)" by code_simp
  have b: "bought_reserve sizing_event ''BtoA'' = 1000000000" by code_simp
  have p: "pow10 (decimals_of sizing_event (bought_currency ''BtoA'')) = Inr 1000000" by code_simp
  have "\<exists>p. pow10 (decimals_of sizing_event (bought_currency ''BtoA'')) = Inr p \<and>
             MIN_POSITION_SIZE * p \<le> 500000000 / 11"
    using calculate_position_size_floor [OF c] b by simp
  with c b p show ?thesis by simp
qed

text \<open>
  C5 as stated fails: with an empty bought-side reserve the function returns 0, below the
  floor 0.01 * 10^6.
\<close>

theorem calculate_position_size_floor_counterexample:
  "calculate_position_size empty_reserve_event 100 ''BtoA'' = Inr 0 \<and>
   pow10 (decimals_of empty_reserve_event (bought_currency ''BtoA'')) = Inr 1000000 \<and>
   \<not> MIN_POSITION_SIZE * 1000000 \<le> 0"
  by code_simp

text \<open>
  C6. With the pool event fixed, \<open>calculate_position_size\<close> is non-increasing in
  impact_bp for impact_bp at least 0: if it returns for the smaller impact, it returns for
  the larger one, with a value that is not larger. The impact factor
  \<open>max(0.1, 1 / (1 + impact_bp / 1000))\<close> is itself non-increasing. And the function
  returns 0 whenever the bought-side reserve (amountA for a BtoA fade, amountB for AtoB)
  equals 0, for an event whose Liquidity, Pool and bought-currency entries are
  dictionaries.
\<close>

theorem calculate_position_size_antimono:
  "(0 \<le> i1 \<and> i1 \<le> i2 \<and> calculate_position_size ev i1 dir = Inr v1
      \<longrightarrow> (\<exists>v2. calculate_position_size ev i2 dir = Inr v2 \<and> v2 \<le> v1)) \<and>
   (0 \<le> i1 \<and> i1 \<le> i2 \<longrightarrow> impact_factor i2 \<le> impact_factor i1) \<and>
   (sizing_well_typed ev (bought_currency dir) \<and> bought_reserve ev dir = 0
      \<longrightarrow> calculate_position_size ev imp dir = Inr 0)"
proof (intro conjI impI)
  assume a: "0 \<le> i1 \<and> i1 \<le> i2 \<and> calculate_position_size ev i1 dir = Inr v1"
  then have wt: "sizing_well_typed ev (bought_currency dir)"
    using calculate_position_size_Inr by blast
  from a have nz: "1 + i1 / 1000 \<noteq> 0" "1 + i2 / 1000 \<noteq> 0" by auto
  show "\<exists>v2. calculate_position_size ev i2 dir = Inr v2 \<and> v2 \<le> v1"
  proof (cases "bought_reserve ev dir = 0")
    case True
    with a show ?thesis by (simp add: calculate_position_size_typed [OF wt])
  next
    case False
    with a nz obtain p where p: "pow10 (decimals_of ev (bought_currency dir)) = Inr p"
      by (cases "pow10 (decimals_of ev (bought_currency dir))")
         (auto simp: calculate_position_size_typed [OF wt])
    then have pos: "0 < p" by (rule pow10_pos)
    from a have le: "0 \<le> i1" "i1 \<le> i2" by simp_all
    show ?thesis
      using a False nz p position_size_antimono [OF le pos, of "bought_reserve ev dir"]
      by (auto simp: calculate_position_size_typed [OF wt])
  qed
next
  assume "0 \<le> i1 \<and> i1 \<le> i2"
  then show "impact_factor i2 \<le> impact_factor i1" by (simp add: impact_factor_antimono)
next
  assume "sizing_well_typed ev (bought_currency dir) \<and> bought_reserve ev dir = 0"
  then show "calculate_position_size ev imp dir = Inr 0"
    by (simp add: calculate_position_size_typed)
qed

text \<open>Impacts 100, 1000 and 100000 on the same pool, and the pool with an empty reserve.\<close>

theorem calculate_position_size_antimono_witness:
  "calculate_position_size sizing_event 100 ''BtoA'' = Inr (500000000 / 11) \<and>
   calculate_position_size sizing_event 1000 ''BtoA'' = Inr 25000000 \<and>
   calculate_position_size sizing_event 100000 ''BtoA'' = Inr 5000000 \<and>
   impact_factor 100000 \<le> impact_factor 1000 \<and>
   sizing_well_typed empty_reserve_event (bought_currency ''BtoA'') \<and>
   bought_reserve empty_reserve_event ''BtoA'' = 0 \<and>
   calculate_position_size empty_reserve_event 100 ''BtoA'' = Inr 0"
proof -
  have c1: "calculate_position_size sizing_event 100 ''BtoA'' = Inr (500000000 / 11)" by code_simp
  have c2: "calculate_position_size sizing_event 1000 ''BtoA'' = Inr 25000000" by code_simp
  have c3: "calculate_position_size sizing_event 100000 ''BtoA'' = Inr 5000000" by code_simp
  have wt: "sizing_well_typed empty_reserve_event (bought_currency ''BtoA'')" by code_simp
  have z: "bought_reserve empty_reserve_event ''BtoA'' = 0" by code_simp
  have "\<exists>v2. calculate_position_size sizing_event 1000 ''BtoA'' = Inr v2 \<and> v2 \<le> 500000000 / 11"
    using calculate_position_size_antimono [of 100 1000 sizing_event "''BtoA''" "500000000 / 11"] c1
    by simp
  moreover have "impact_factor 100000 \<le> impact_factor 1000"
    using calculate_position_size_antimono [of 1000 100000] by simp
  moreover have "calculate_position_size empty_reserve_event 100 ''BtoA'' = Inr 0"
    using calculate_position_size_antimono [of _ _ empty_reserve_event "''BtoA''" _ 100] wt z by blast
  ultimately show ?thesis using c1 c2 c3 wt z by simp
qed

section \<open>Claims about the flow classifier\<close>

lemma maxlen10_snoc: "\<exists>ys. maxlen10 (xs @ [x]) = ys @ [x]"
proof -
  have "maxlen10 (xs @ [x]) = drop (length xs + 1 - 10) xs @ [x]"
    by (simp add: maxlen10_def)
  then show ?thesis by blast
qed

lemma maxlen10_snoc2: "\<exists>ys. maxlen10 (xs @ [y, x]) = ys @ [y, x]"
proof -
  have "maxlen10 (xs @ [y, x]) = drop (length xs + 2 - 10) xs @ [y, x]"
    by (simp add: maxlen10_def)
  then show ?thesis by blast
qed


lemma is_isolated_shock_history:
  "pool_event_history (snd (is_isolated_shock k d t st)) k =
     Some (maxlen10 (maxlen10 (recent_events t (history_of st k)) @ [(d, t)]))"
  by (simp add: is_isolated_shock_def Let_def history_of_def)

lemma is_isolated_shock_verdict:
  "fst (is_isolated_shock k d t st) =
     (same_direction_count d (recent_events t (history_of st k)) \<le> MAX_SAME_DIRECTION_EVENTS)"
  by (simp add: is_isolated_shock_def Let_def history_of_def)

lemma history_of_after:
  "history_of (snd (is_isolated_shock k d t st)) k =
     maxlen10 (maxlen10 (recent_events t (history_of st k)) @ [(d, t)])"
  unfolding history_of_def [of "snd (is_isolated_shock k d t st)"] is_isolated_shock_history
  by simp

lemma history_after_call: "\<exists>ys. history_of (snd (is_isolated_shock k d t st)) k = ys @ [(d, t)]"
  using maxlen10_snoc [of "maxlen10 (recent_events t (history_of st k))" "(d, t)"]
  by (simp add: history_of_def is_isolated_shock_history)



lemma history_after_two_calls:
  assumes "history_of st k = ys @ [(d, t1)]" and "t2 - t1 < FLOW_DETECTION_WINDOW_SECONDS"
  shows "\<exists>zs. history_of (snd (is_isolated_shock k d t2 st)) k = zs @ [(d, t1), (d, t2)]"
proof -
  have r: "recent_events t2 (history_of st k) = recent_events t2 ys @ [(d, t1)]"
    unfolding assms(1) recent_events_def using assms(2) by simp
  obtain b where b: "maxlen10 (recent_events t2 ys @ [(d, t1)]) = b @ [(d, t1)]"
    using maxlen10_snoc [of "recent_events t2 ys" "(d, t1)"] by (elim exE)
  obtain c where c: "maxlen10 (b @ [(d, t1), (d, t2)]) = c @ [(d, t1), (d, t2)]"
    using maxlen10_snoc2 [of b "(d, t1)" "(d, t2)"] by (elim exE)
  have "history_of (snd (is_isolated_shock k d t2 st)) k =
          maxlen10 (maxlen10 (recent_events t2 (history_of st k)) @ [(d, t2)])"
    by (rule history_of_after)
  also have "\<dots> = maxlen10 ((b @ [(d, t1)]) @ [(d, t2)])"
    by (simp only: r b)
  also have "\<dots> = c @ [(d, t1), (d, t2)]"
    unfolding append_assoc append_Cons append_Nil by (rule c)
  finally show ?thesis by blast
qed


lemma third_event_persistent:
  assumes "t1 \<le> t2" and "t2 \<le> t3" and "t3 - t1 < FLOW_DETECTION_WINDOW_SECONDS"
  shows "\<not> fst (is_isolated_shock k d t3
                 (snd (is_isolated_shock k d t2 (snd (is_isolated_shock k d t1 st)))))"
proof -
  let ?s1 = "snd (is_isolated_shock k d t1 st)"
  let ?s2 = "snd (is_isolated_shock k d t2 ?s1)"
  obtain ys where h1: "history_of ?s1 k = ys @ [(d, t1)]"
    using history_after_call [of k d t1 st] by (elim exE)
  have w21: "t2 - t1 < FLOW_DETECTION_WINDOW_SECONDS" using assms by simp
  have w32: "t3 - t2 < FLOW_DETECTION_WINDOW_SECONDS" using assms by simp
  obtain zs where h2: "history_of ?s2 k = zs @ [(d, t1), (d, t2)]"
    using history_after_two_calls [OF h1 w21] by (elim exE)
  have "recent_events t3 (zs @ [(d, t1), (d, t2)]) = recent_events t3 zs @ [(d, t1), (d, t2)]"
    unfolding recent_events_def using assms(3) w32 by simp
  then have "same_direction_count d (recent_events t3 (history_of ?s2 k)) =
               same_direction_count d (recent_events t3 zs) + 2"
    unfolding h2 by (simp add: same_direction_count_def)
  then show ?thesis
    unfolding is_isolated_shock_verdict MAX_SAME_DIRECTION_EVENTS_def by simp
qed

text \<open>
  C4. \<open>is_isolated_shock(pool_id, direction, t)\<close> returns True iff the number of retained
  records of that pool whose direction equals the current direction and whose age
  \<open>t - time\<close> is less than FLOW_DETECTION_WINDOW_SECONDS is at most
  MAX_SAME_DIRECTION_EVENTS. In particular the first event of a pool without history is
  isolated, and with MAX_SAME_DIRECTION_EVENTS = 1 a third same-direction event, following
  two of that direction in time order and within the window of the first, is persistent,
  whatever the history was before.
\<close>

theorem is_isolated_shock_classification:
  "fst (is_isolated_shock k d t st) =
     (length (filter (\<lambda>r. fst r = d \<and> t - snd r < FLOW_DETECTION_WINDOW_SECONDS) (history_of st k))
        \<le> MAX_SAME_DIRECTION_EVENTS) \<and>
   (pool_event_history st k = None \<longrightarrow> fst (is_isolated_shock k d t st)) \<and>
   (MAX_SAME_DIRECTION_EVENTS = 1 \<and> t1 \<le> t2 \<and> t2 \<le> t3 \<and> t3 - t1 < FLOW_DETECTION_WINDOW_SECONDS
      \<longrightarrow> \<not> fst (is_isolated_shock k d t3
                   (snd (is_isolated_shock k d t2 (snd (is_isolated_shock k d t1 st))))))"
proof (intro conjI impI)
  have "filter (\<lambda>e. fst e = d) (filter (\<lambda>e. t - snd e < FLOW_DETECTION_WINDOW_SECONDS) (history_of st k)) =
        filter (\<lambda>r. fst r = d \<and> t - snd r < FLOW_DETECTION_WINDOW_SECONDS) (history_of st k)"
    unfolding filter_filter by (rule filter_cong) auto
  then show "fst (is_isolated_shock k d t st) =
     (length (filter (\<lambda>r. fst r = d \<and> t - snd r < FLOW_DETECTION_WINDOW_SECONDS) (history_of st k))
        \<le> MAX_SAME_DIRECTION_EVENTS)"
    unfolding is_isolated_shock_verdict same_direction_count_def recent_events_def by simp
next
  assume "pool_event_history st k = None"
  then have "history_of st k = []" by (simp add: history_of_def)
  then show "fst (is_isolated_shock k d t st)"
    unfolding is_isolated_shock_verdict by (simp add: recent_events_def same_direction_count_def)
next
  assume "MAX_SAME_DIRECTION_EVENTS = 1 \<and> t1 \<le> t2 \<and> t2 \<le> t3 \<and> t3 - t1 < FLOW_DETECTION_WINDOW_SECONDS"
  then show "\<not> fst (is_isolated_shock k d t3
                   (snd (is_isolated_shock k d t2 (snd (is_isolated_shock k d t1 st)))))"
    using third_event_persistent [of t1 t2 t3 k d st] by blast
qed

text \<open>
  The scenario of the specification: AtoB events of pool P at 0, 5 and 10 seconds are
  isolated, isolated and persistent.
\<close>

theorem is_isolated_shock_classification_witness:
  "pool_event_history empty_state (KStr ''P'') = None \<and>
   fst (is_isolated_shock (KStr ''P'') ''AtoB'' 0 empty_state) \<and>
   fst (is_isolated_shock (KStr ''P'') ''AtoB'' 5 (snd (is_isolated_shock (KStr ''P'') ''AtoB'' 0 empty_state))) \<and>
   MAX_SAME_DIRECTION_EVENTS = 1 \<and> (0::real) \<le> 5 \<and> (5::real) \<le> 10 \<and>
   (10::real) - 0 < FLOW_DETECTION_WINDOW_SECONDS \<and>
   \<not> fst (is_isolated_shock (KStr ''P'') ''AtoB'' 10
           (snd (is_isolated_shock (KStr ''P'') ''AtoB'' 5
              (snd (is_isolated_shock (KStr ''P'') ''AtoB'' 0 empty_state)))))"
proof -
  have e: "pool_event_history empty_state (KStr ''P'') = None" by (simp add: empty_state_def)
  have m: "MAX_SAME_DIRECTION_EVENTS = 1" by (simp add: MAX_SAME_DIRECTION_EVENTS_def)
  have w: "(10::real) - 0 < FLOW_DETECTION_WINDOW_SECONDS" by (simp add: FLOW_DETECTION_WINDOW_SECONDS_def)
  have first: "fst (is_isolated_shock (KStr ''P'') ''AtoB'' 0 empty_state)"
    using is_isolated_shock_classification [of "KStr ''P''" "''AtoB''" 0 empty_state] e by blast
  have second: "fst (is_isolated_shock (KStr ''P'') ''AtoB'' 5 (snd (is_isolated_shock (KStr ''P'') ''AtoB'' 0 empty_state)))"
    by (simp add: is_isolated_shock_def Let_def empty_state_def recent_events_def same_direction_count_def
      maxlen10_def FLOW_DETECTION_WINDOW_SECONDS_def MAX_SAME_DIRECTION_EVENTS_def)
  have "MAX_SAME_DIRECTION_EVENTS = 1 \<and> (0::real) \<le> 5 \<and> (5::real) \<le> 10 \<and> (10::real) - 0 < FLOW_DETECTION_WINDOW_SECONDS"
    using m w by simp
  then have third: "\<not> fst (is_isolated_shock (KStr ''P'') ''AtoB'' 10
           (snd (is_isolated_shock (KStr ''P'') ''AtoB'' 5
              (snd (is_isolated_shock (KStr ''P'') ''AtoB'' 0 empty_state)))))"
    using is_isolated_shock_classification [of "KStr ''P''" "''AtoB''" 0 empty_state 0 5 10] by blast
  from e m w first second third show ?thesis by (intro conjI) simp_all
qed

section \<open>Claims about the fade decision and the registry\<close>

lemma is_isolated_shock_registry:
  "active_positions (snd (is_isolated_shock k d t st)) = active_positions st"
  by (simp add: is_isolated_shock_def Let_def)

lemma is_isolated_shock_other_pools:
  "k' \<noteq> k \<Longrightarrow> pool_event_history (snd (is_isolated_shock k d t st)) k' = pool_event_history st k'"
  by (simp add: is_isolated_shock_def Let_def)

lemma should_fade_flow:
  assumes "reaches_flow_check ev k t"
  shows "should_fade ev (i, d, z) st =
           Inr (fst (is_isolated_shock k d t st) \<and> active_positions st k = None,
                snd (is_isolated_shock k d t st))"
proof -
  from assms have d: "is_dict ev" "is_dict (field ev ''Pool'' (PDict []))"
      "is_dict (field ev ''TransactionHeader'' (PDict []))"
    and tr: "truthy (event_pool_id ev)"
    and ts: "to_seconds (event_time_field ev) = Inr t"
    and ky: "key_of (event_pool_id ev) = Inr k"
    by (simp_all add: reaches_flow_check_def)
  obtain iso st1 where r: "is_isolated_shock k d t st = (iso, st1)"
    by (cases "is_isolated_shock k d t st")
  have reg: "active_positions st1 = active_positions st"
    using is_isolated_shock_registry [of k d t st] r by simp
  show ?thesis
    using tr ts ky
    by (simp add: should_fade_def py_get_dict [OF d(1)] py_get_dict [OF d(2)] py_get_dict [OF d(3)]
          event_pool_id_def [symmetric] event_time_field_def [symmetric] r reg)
qed

lemma should_fade_cases:
  assumes "should_fade ev (i, d, z) st = Inr (b, st')"
  shows "(\<not> truthy (event_pool_id ev) \<and> \<not> b \<and> st' = st) \<or> (\<exists>k t. reaches_flow_check ev k t)"
proof -
  from assms obtain pool where p: "py_get ev ''Pool'' (PDict []) = Inr pool"
    by (cases "py_get ev ''Pool'' (PDict [])") (simp_all add: should_fade_def)
  then have e: "is_dict ev" by (rule py_get_Inr)
  from p e have pf: "pool = field ev ''Pool'' (PDict [])" by (simp add: py_get_dict)
  from assms p obtain pid where q: "py_get pool ''PoolId'' (PStr []) = Inr pid"
    by (cases "py_get pool ''PoolId'' (PStr [])") (simp_all add: should_fade_def)
  then have pd: "is_dict pool" by (rule py_get_Inr)
  from q pd pf have qf: "pid = event_pool_id ev" by (simp add: py_get_dict event_pool_id_def)
  show ?thesis
  proof (cases "truthy pid")
    case False
    with assms p q qf show ?thesis by (simp add: should_fade_def)
  next
    case True
    from assms p q True obtain txh where x: "py_get ev ''TransactionHeader'' (PDict []) = Inr txh"
      by (cases "py_get ev ''TransactionHeader'' (PDict [])") (simp_all add: should_fade_def)
    from x e have xf: "txh = field ev ''TransactionHeader'' (PDict [])" by (simp add: py_get_dict)
    from assms p q True x obtain tv where v: "py_get txh ''Time'' (PInt 0) = Inr tv"
      by (cases "py_get txh ''Time'' (PInt 0)") (simp_all add: should_fade_def)
    then have xd: "is_dict txh" by (rule py_get_Inr)
    from v xd xf have vf: "tv = event_time_field ev" by (simp add: py_get_dict event_time_field_def)
    from assms p q True x v obtain t where t: "to_seconds tv = Inr t"
      by (cases "to_seconds tv") (simp_all add: should_fade_def)
    from assms p q True x v t obtain k where k: "key_of pid = Inr k"
      by (cases "key_of pid") (simp_all add: should_fade_def)
    have "reaches_flow_check ev k t"
      using e pd pf True qf xd xf t vf k by (simp add: reaches_flow_check_def)
    then show ?thesis by blast
  qed
qed

lemma should_fade_keeps_registry:
  assumes "should_fade ev imp st = Inr (b, st')"
  shows "active_positions st' = active_positions st"
proof -
  obtain i d z where imp: "imp = (i, d, z)" by (cases imp)
  from should_fade_cases [OF assms [unfolded imp]] show ?thesis
  proof
    assume "\<not> truthy (event_pool_id ev) \<and> \<not> b \<and> st' = st"
    then show ?thesis by simp
  next
    assume "\<exists>k t. reaches_flow_check ev k t"
    then obtain k t where "reaches_flow_check ev k t" by blast
    from should_fade_flow [OF this, of i d z st] assms imp
    have "st' = snd (is_isolated_shock k d t st)" by simp
    then show ?thesis by (simp add: is_isolated_shock_registry)
  qed
qed

lemma should_fade_veto:
  assumes "should_fade ev imp st = Inr (b, st')" and "key_of (event_pool_id ev) = Inr k"
    and "active_positions st k \<noteq> None"
  shows "\<not> b"
proof -
  obtain i d z where imp: "imp = (i, d, z)" by (cases imp)
  from should_fade_cases [OF assms(1) [unfolded imp]] show ?thesis
  proof
    assume "\<not> truthy (event_pool_id ev) \<and> \<not> b \<and> st' = st"
    then show ?thesis by simp
  next
    assume "\<exists>k t. reaches_flow_check ev k t"
    then obtain k' t where r: "reaches_flow_check ev k' t" by blast
    then have "k' = k" using assms(2) by (simp add: reaches_flow_check_def)
    with should_fade_flow [OF r, of i d z st] assms(1,3) imp show ?thesis by simp
  qed
qed

lemma register_fade_step:
  assumes "register_fade ev imp sg st = Inr (r, st')"
  shows "(r = None \<and> active_positions st' = active_positions st) \<or>
         (\<exists>k. r = Some k \<and> active_positions st k = None \<and>
              active_positions st' = (active_positions st)(k \<mapsto> sg))"
proof -
  from assms obtain pool where p: "py_get ev ''Pool'' (PDict []) = Inr pool"
    by (cases "py_get ev ''Pool'' (PDict [])") (simp_all add: register_fade_def)
  then have e: "is_dict ev" by (rule py_get_Inr)
  from p e have pf: "pool = field ev ''Pool'' (PDict [])" by (simp add: py_get_dict)
  from assms p obtain pid where q: "py_get pool ''PoolId'' (PStr []) = Inr pid"
    by (cases "py_get pool ''PoolId'' (PStr [])") (simp_all add: register_fade_def)
  then have pd: "is_dict pool" by (rule py_get_Inr)
  from q pd pf have qf: "pid = event_pool_id ev" by (simp add: py_get_dict event_pool_id_def)
  show ?thesis
  proof (cases "truthy pid")
    case False
    with assms p q show ?thesis by (simp add: register_fade_def)
  next
    case True
    from assms p q True obtain b st1 where s: "should_fade ev imp st = Inr (b, st1)"
      by (cases "should_fade ev imp st") (auto simp: register_fade_def)
    have reg: "active_positions st1 = active_positions st"
      using s by (rule should_fade_keeps_registry)
    show ?thesis
    proof (cases b)
      case False
      with assms p q True s reg show ?thesis by (simp add: register_fade_def)
    next
      case b: True
      from assms p q True s b obtain k where k: "key_of pid = Inr k"
        by (cases "key_of pid") (simp_all add: register_fade_def add_position_def)
      have kk: "key_of (event_pool_id ev) = Inr k" using k qf by simp
      have "active_positions st k = None"
      proof (rule ccontr)
        assume "active_positions st k \<noteq> None"
        from should_fade_veto [OF s kk this] b show False by simp
      qed
      with assms p q True s b k reg show ?thesis
        by (auto simp: register_fade_def add_position_def)
    qed
  qed
qed

lemma run_events_invariant:
  "run_events st xs = Inr (st', ks) \<Longrightarrow>
     distinct ks \<and> set ks \<inter> dom (active_positions st) = {} \<and>
     dom (active_positions st') = dom (active_positions st) \<union> set ks \<and>
     (\<forall>k\<in>dom (active_positions st). active_positions st' k = active_positions st k)"
proof (induction xs arbitrary: st st' ks)
  case Nil
  then show ?case by simp
next
  case (Cons x xs)
  obtain ev imp sg where x: "x = (ev, imp, sg)" by (cases x)
  from Cons.prems x obtain r st1 where s: "register_fade ev imp sg st = Inr (r, st1)"
    by (cases "register_fade ev imp sg st") auto
  from Cons.prems x s obtain st2 ks' where
    t: "run_events st1 xs = Inr (st2, ks')" and
    res: "st' = st2" "ks = (case r of Some k \<Rightarrow> k # ks' | None \<Rightarrow> ks')"
    by (cases "run_events st1 xs") auto
  note ih = Cons.IH [OF t]
  from register_fade_step [OF s] show ?case
  proof
    assume "r = None \<and> active_positions st1 = active_positions st"
    with ih res show ?thesis by simp
  next
    assume "\<exists>k. r = Some k \<and> active_positions st k = None \<and>
              active_positions st1 = (active_positions st)(k \<mapsto> sg)"
    then obtain k where k: "r = Some k" "active_positions st k = None"
      "active_positions st1 = (active_positions st)(k \<mapsto> sg)" by blast
    from k(3) have dom1: "dom (active_positions st1) = insert k (dom (active_positions st))"
      by simp
    from k(2) have nk: "k \<notin> dom (active_positions st)" by (simp add: domIff)
    from ih dom1 have a: "distinct ks'" and b: "k \<notin> set ks'"
      and c: "set ks' \<inter> dom (active_positions st) = {}"
      and d: "dom (active_positions st2) = insert k (dom (active_positions st)) \<union> set ks'"
      and f: "\<forall>j\<in>insert k (dom (active_positions st)). active_positions st2 j = active_positions st1 j"
      by auto
    have g: "\<forall>j\<in>dom (active_positions st). active_positions st' j = active_positions st j"
    proof
      fix j assume j: "j \<in> dom (active_positions st)"
      with nk have "j \<noteq> k" by auto
      with f j k(3) res(1) show "active_positions st' j = active_positions st j" by simp
    qed
    from a b c d nk g res k(1) show ?thesis by auto
  qed
qed

text \<open>
  C2. At most one active position per pool. Whenever the registry holds an entry for the
  pool id of an event, \<open>should_fade\<close> does not return True for it; a signal is stored
  only under a key that had no entry; and in every sequence of events processed through
  \<open>should_fade\<close> and \<open>add_position\<close> the keys under which signals were stored are
  pairwise distinct and disjoint from the keys present at the start, whose entries stay as
  they were.
\<close>

theorem one_position_per_pool:
  "(should_fade ev imp st = Inr (b, st1) \<and> key_of (event_pool_id ev) = Inr k \<and>
      active_positions st k \<noteq> None \<longrightarrow> \<not> b) \<and>
   (register_fade ev imp sg st = Inr (Some k, st1) \<longrightarrow> active_positions st k = None) \<and>
   (run_events st xs = Inr (st', ks) \<longrightarrow>
      distinct ks \<and> set ks \<inter> dom (active_positions st) = {} \<and>
      dom (active_positions st') = dom (active_positions st) \<union> set ks \<and>
      (\<forall>j\<in>dom (active_positions st). active_positions st' j = active_positions st j))"
proof (intro conjI impI)
  assume "should_fade ev imp st = Inr (b, st1) \<and> key_of (event_pool_id ev) = Inr k \<and>
      active_positions st k \<noteq> None"
  then show "\<not> b" using should_fade_veto by blast
next
  assume "register_fade ev imp sg st = Inr (Some k, st1)"
  from register_fade_step [OF this] show "active_positions st k = None" by auto
next
  assume r: "run_events st xs = Inr (st', ks)"
  from run_events_invariant [OF r] show "distinct ks" by simp
  from run_events_invariant [OF r] show "set ks \<inter> dom (active_positions st) = {}" by simp
  from run_events_invariant [OF r]
  show "dom (active_positions st') = dom (active_positions st) \<union> set ks" by simp
  from run_events_invariant [OF r]
  show "\<forall>j\<in>dom (active_positions st). active_positions st' j = active_positions st j" by simp
qed

text \<open>
  A second event of pool P is vetoed while P is held; of three events for P, P and Q one
  signal is stored for P and one for Q.
\<close>

theorem one_position_per_pool_witness:
  "active_positions held_state (KStr ''P'') \<noteq> None \<and>
   key_of (event_pool_id (flow_event ''P'' 5000000000)) = Inr (KStr ''P'') \<and>
   map_sum id fst (should_fade (flow_event ''P'' 5000000000) (500, ''AtoB'', 50) held_state) = Inr False \<and>
   map_sum id snd (run_events empty_state two_pool_run) = Inr [KStr ''P'', KStr ''Q''] \<and>
   distinct [KStr ''P'', KStr ''Q'']"
proof -
  have h: "active_positions held_state (KStr ''P'') \<noteq> None" by code_simp
  have k: "key_of (event_pool_id (flow_event ''P'' 5000000000)) = Inr (KStr ''P'')" by code_simp
  have f: "map_sum id fst (should_fade (flow_event ''P'' 5000000000) (500, ''AtoB'', 50) held_state)
             = Inr False"
    by code_simp
  have r: "map_sum id snd (run_events empty_state two_pool_run) = Inr [KStr ''P'', KStr ''Q'']"
    by code_simp
  from f obtain b st1 where
    sf: "should_fade (flow_event ''P'' 5000000000) (500, ''AtoB'', 50) held_state = Inr (b, st1)"
    by (cases "should_fade (flow_event ''P'' 5000000000) (500, ''AtoB'', 50) held_state") auto
  have "\<not> b"
    using one_position_per_pool [where ev = "flow_event ''P'' 5000000000"
            and imp = "(500, ''AtoB'', 50)" and st = held_state and b = b and ?st1.0 = st1
            and k = "KStr ''P''"] sf k h
    by blast
  from r obtain st' where
    run: "run_events empty_state two_pool_run = Inr (st', [KStr ''P'', KStr ''Q''])"
    by (cases "run_events empty_state two_pool_run") auto
  have "distinct [KStr ''P'', KStr ''Q'']"
    using one_position_per_pool [where st = empty_state and xs = two_pool_run and st' = st'
            and ks = "[KStr ''P'', KStr ''Q'']"] run
    by blast
  with h k f r show ?thesis by simp
qed

text \<open>
  C10. \<open>should_fade\<close> never modifies the registry of active positions. For every event
  with a non-empty pool id that reaches the flow check, it returns and leaves the state of
  \<open>is_isolated_shock\<close>: the record of the event's direction and time is the last one of
  the pool's flow history, also when the verdict is False because an active position
  exists for the pool.
\<close>

theorem should_fade_records_flow:
  "(should_fade ev imp st = Inr (b, st1) \<longrightarrow> active_positions st1 = active_positions st) \<and>
   (reaches_flow_check ev k t \<longrightarrow>
      (\<exists>v st'. should_fade ev (i, d, z) st = Inr (v, st') \<and>
         st' = snd (is_isolated_shock k d t st) \<and>
         (\<exists>ys. pool_event_history st' k = Some (ys @ [(d, t)])) \<and>
         (active_positions st k \<noteq> None \<longrightarrow> \<not> v)))"
proof (intro conjI impI)
  assume "should_fade ev imp st = Inr (b, st1)"
  then show "active_positions st1 = active_positions st" by (rule should_fade_keeps_registry)
next
  assume r: "reaches_flow_check ev k t"
  obtain ys where "history_of (snd (is_isolated_shock k d t st)) k = ys @ [(d, t)]"
    using history_after_call [of k d t st] by (elim exE)
  then have "pool_event_history (snd (is_isolated_shock k d t st)) k = Some (ys @ [(d, t)])"
    unfolding history_of_after [symmetric] is_isolated_shock_history by simp
  then show "\<exists>v st'. should_fade ev (i, d, z) st = Inr (v, st') \<and>
         st' = snd (is_isolated_shock k d t st) \<and>
         (\<exists>ys. pool_event_history st' k = Some (ys @ [(d, t)])) \<and>
         (active_positions st k \<noteq> None \<longrightarrow> \<not> v)"
    unfolding should_fade_flow [OF r] by blast
qed

text \<open>An event for the held pool P at 7 seconds is vetoed and recorded.\<close>

theorem should_fade_records_flow_witness:
  "reaches_flow_check (flow_event ''P'' 7000000000) (KStr ''P'') 7 \<and>
   active_positions held_state (KStr ''P'') \<noteq> None \<and>
   pool_event_history held_state (KStr ''P'') = None \<and>
   (\<exists>st'. should_fade (flow_event ''P'' 7000000000) (500, ''AtoB'', 50) held_state = Inr (False, st') \<and>
          active_positions st' = active_positions held_state \<and>
          pool_event_history st' (KStr ''P'') = Some [(''AtoB'', 7)])"
proof -
  have r: "reaches_flow_check (flow_event ''P'' 7000000000) (KStr ''P'') 7" by code_simp
  have h: "active_positions held_state (KStr ''P'') \<noteq> None" by code_simp
  have e: "pool_event_history held_state (KStr ''P'') = None" by code_simp
  have p: "pool_event_history (snd (is_isolated_shock (KStr ''P'') ''AtoB'' 7 held_state)) (KStr ''P'')
             = Some [(''AtoB'', 7)]"
    by code_simp
  from should_fade_records_flow [where ev = "flow_event ''P'' 7000000000" and k = "KStr ''P''"
         and t = 7 and i = 500 and d = "''AtoB''" and z = 50 and st = held_state] r h
  obtain v st' where
    s: "should_fade (flow_event ''P'' 7000000000) (500, ''AtoB'', 50) held_state = Inr (v, st')"
    and st: "st' = snd (is_isolated_shock (KStr ''P'') ''AtoB'' 7 held_state)" and v: "\<not> v"
    by blast
  have "active_positions st' = active_positions held_state"
    using should_fade_records_flow [where ev = "flow_event ''P'' 7000000000"
            and imp = "(500, ''AtoB'', 50)" and st = held_state and b = v and ?st1.0 = st'] s
    by blast
  with r h e s st v p show ?thesis by auto
qed

section \<open>Claims about the position monitor\<close>

lemma monitor_positions_advance:
  assumes "is_dict ev" and "is_dict (field ev ''Pool'' (PDict []))"
    and "key_of (event_pool_id ev) = Inr k"
  shows "monitor_positions now ev st = Inr (spec_advance now k st)"
  using assms(3)
  by (simp add: monitor_positions_def py_get_dict [OF assms(1)] py_get_dict [OF assms(2)]
        event_pool_id_def [symmetric] get_active_positions_def spec_advance_def Let_def
        split: option.splits)

lemma monitor_positions_Inr:
  assumes "monitor_positions now ev st = Inr st'"
  shows "\<exists>k. st' = spec_advance now k st"
proof -
  from assms obtain pool where p: "py_get ev ''Pool'' (PDict []) = Inr pool"
    by (cases "py_get ev ''Pool'' (PDict [])") (simp_all add: monitor_positions_def)
  then have e: "is_dict ev" by (rule py_get_Inr)
  from p e have pf: "pool = field ev ''Pool'' (PDict [])" by (simp add: py_get_dict)
  from assms p obtain pid where q: "py_get pool ''PoolId'' (PStr []) = Inr pid"
    by (cases "py_get pool ''PoolId'' (PStr [])") (simp_all add: monitor_positions_def)
  then have pd: "is_dict pool" by (rule py_get_Inr)
  from q pd pf have qf: "pid = event_pool_id ev" by (simp add: py_get_dict event_pool_id_def)
  from assms p q obtain k where k: "key_of pid = Inr k"
    by (cases "key_of pid") (simp_all add: monitor_positions_def)
  have "monitor_positions now ev st = Inr (spec_advance now k st)"
    using e pd pf k qf by (intro monitor_positions_advance) simp_all
  with assms show ?thesis by auto
qed

lemma spec_advance_effect:
  "pool_event_history (spec_advance now k st) = pool_event_history st \<and>
   dom (active_positions (spec_advance now k st)) = dom (active_positions st) \<and>
   (\<forall>j p'. active_positions (spec_advance now k st) j = Some p' \<longrightarrow>
      (\<exists>p. active_positions st j = Some p \<and>
           (p' = p \<or> (status p = ''pending'' \<and> p' = p\<lparr>status := ''entered''\<rparr>))))"
  by (auto simp: spec_advance_def split: option.splits if_splits)


text \<open>
  C3. \<open>monitor_positions\<close> performs only the transition from pending to entered. For an
  event whose pool id hashes to the key \<open>k\<close>: without an entry for \<open>k\<close>, or with the
  time before the stored entry_time, the state is returned unchanged; from entry_time on, a
  position with status pending gets the status entered. And whenever a call returns, the
  flow histories are unchanged, the registry has the same keys, every position is the old
  one or the old pending one with status entered, and a position with status closed was
  there with that status before: no call sets closed or removes a pool id.
\<close>

theorem monitor_positions_transition:
  "(is_dict ev \<and> is_dict (field ev ''Pool'' (PDict [])) \<and> key_of (event_pool_id ev) = Inr k \<longrightarrow>
      monitor_positions now ev st = Inr (spec_advance now k st) \<and>
      (active_positions st k = None \<longrightarrow> monitor_positions now ev st = Inr st) \<and>
      (\<forall>p. active_positions st k = Some p \<and> now < entry_time p \<longrightarrow>
           monitor_positions now ev st = Inr st) \<and>
      (\<forall>p. active_positions st k = Some p \<and> entry_time p \<le> now \<and> status p = ''pending'' \<longrightarrow>
           monitor_positions now ev st =
             Inr (st\<lparr>active_positions := (active_positions st)(k \<mapsto> p\<lparr>status := ''entered''\<rparr>)\<rparr>))) \<and>
   (monitor_positions now ev st = Inr st' \<longrightarrow>
      pool_event_history st' = pool_event_history st \<and>
      dom (active_positions st') = dom (active_positions st) \<and>
      (\<forall>j p'. active_positions st' j = Some p' \<longrightarrow>
         (\<exists>p. active_positions st j = Some p \<and>
              (p' = p \<or> (status p = ''pending'' \<and> p' = p\<lparr>status := ''entered''\<rparr>)))) \<and>
      (\<forall>j p'. active_positions st' j = Some p' \<and> status p' = ''closed'' \<longrightarrow>
         active_positions st j = Some p'))"
proof (intro conjI impI)
  assume a: "is_dict ev \<and> is_dict (field ev ''Pool'' (PDict [])) \<and> key_of (event_pool_id ev) = Inr k"
  then have m: "monitor_positions now ev st = Inr (spec_advance now k st)"
    by (simp add: monitor_positions_advance)
  show "monitor_positions now ev st = Inr (spec_advance now k st)" by (rule m)
  show "monitor_positions now ev st = Inr st" if "active_positions st k = None"
    using that by (simp add: m spec_advance_def)
  show "\<forall>p. active_positions st k = Some p \<and> now < entry_time p \<longrightarrow>
           monitor_positions now ev st = Inr st"
    by (simp add: m spec_advance_def)
  show "\<forall>p. active_positions st k = Some p \<and> entry_time p \<le> now \<and> status p = ''pending'' \<longrightarrow>
           monitor_positions now ev st =
             Inr (st\<lparr>active_positions := (active_positions st)(k \<mapsto> p\<lparr>status := ''entered''\<rparr>)\<rparr>)"
    by (simp add: m spec_advance_def)
next
  assume "monitor_positions now ev st = Inr st'"
  then obtain k where k: "st' = spec_advance now k st"
    using monitor_positions_Inr by blast
  note eff = spec_advance_effect [of now k st, folded k]
  from eff show "pool_event_history st' = pool_event_history st" by simp
  from eff show "dom (active_positions st') = dom (active_positions st)" by simp
  from eff show d: "\<forall>j p'. active_positions st' j = Some p' \<longrightarrow>
         (\<exists>p. active_positions st j = Some p \<and>
              (p' = p \<or> (status p = ''pending'' \<and> p' = p\<lparr>status := ''entered''\<rparr>)))"
    by simp
  show "\<forall>j p'. active_positions st' j = Some p' \<and> status p' = ''closed'' \<longrightarrow>
         active_positions st j = Some p'"
  proof (intro allI impI)
    fix j p' assume h: "active_positions st' j = Some p' \<and> status p' = ''closed''"
    with d obtain p where p: "active_positions st j = Some p"
      "p' = p \<or> (status p = ''pending'' \<and> p' = p\<lparr>status := ''entered''\<rparr>)" by blast
    from p(2) h have "p' = p" by auto
    with p(1) show "active_positions st j = Some p'" by simp
  qed
qed

text \<open>
  The held pool P with entry time 102: nothing at 101, entered at 102; pool Q without
  entry is left alone.
\<close>

theorem monitor_positions_transition_witness:
  "is_dict (flow_event ''P'' 0) \<and> is_dict (field (flow_event ''P'' 0) ''Pool'' (PDict [])) \<and>
   key_of (event_pool_id (flow_event ''P'' 0)) = Inr (KStr ''P'') \<and>
   map_option entry_time (active_positions held_state (KStr ''P'')) = Some 102 \<and>
   map_option status (active_positions held_state (KStr ''P'')) = Some ''pending'' \<and>
   monitor_positions 101 (flow_event ''P'' 0) held_state = Inr held_state \<and>
   (\<exists>st'. monitor_positions 102 (flow_event ''P'' 0) held_state = Inr st' \<and>
          map_option status (active_positions st' (KStr ''P'')) = Some ''entered'' \<and>
          dom (active_positions st') = dom (active_positions held_state)) \<and>
   active_positions held_state (KStr ''Q'') = None \<and>
   monitor_positions 500 (flow_event ''Q'' 0) held_state = Inr held_state"
proof -
  let ?P = "flow_event ''P'' 0" and ?Q = "flow_event ''Q'' 0"
  let ?sg = "pending_signal ''P'' 100"
  have d1: "is_dict ?P" by code_simp
  have d2: "is_dict (field ?P ''Pool'' (PDict []))" by code_simp
  have d3: "key_of (event_pool_id ?P) = Inr (KStr ''P'')" by code_simp
  have d4: "is_dict ?Q" by code_simp
  have d5: "is_dict (field ?Q ''Pool'' (PDict []))" by code_simp
  have d6: "key_of (event_pool_id ?Q) = Inr (KStr ''Q'')" by code_simp
  have p: "active_positions held_state (KStr ''P'') = Some ?sg"
    by (simp add: held_state_def)
  have q: "active_positions held_state (KStr ''Q'') = None"
    by (simp add: held_state_def empty_state_def)
  have et: "entry_time ?sg = 102" by (simp add: pending_signal_def WAIT_TIME_SECONDS_def)
  have stt: "status ?sg = ''pending''" by (simp add: pending_signal_def)
  have dp: "is_dict ?P \<and> is_dict (field ?P ''Pool'' (PDict [])) \<and> key_of (event_pool_id ?P) = Inr (KStr ''P'')"
    using d1 d2 d3 by blast
  have dq: "is_dict ?Q \<and> is_dict (field ?Q ''Pool'' (PDict [])) \<and> key_of (event_pool_id ?Q) = Inr (KStr ''Q'')"
    using d4 d5 d6 by blast
  have "\<forall>p. active_positions held_state (KStr ''P'') = Some p \<and> 101 < entry_time p \<longrightarrow>
           monitor_positions 101 ?P held_state = Inr held_state"
    using monitor_positions_transition [where ev = ?P and k = "KStr ''P''" and st = held_state
        and now = 101] dp by blast
  from this [rule_format, of ?sg] p et
  have early: "monitor_positions 101 ?P held_state = Inr held_state" by simp
  have "\<forall>p. active_positions held_state (KStr ''P'') = Some p \<and> entry_time p \<le> 102 \<and>
             status p = ''pending'' \<longrightarrow>
           monitor_positions 102 ?P held_state =
             Inr (held_state\<lparr>active_positions :=
                    (active_positions held_state)(KStr ''P'' \<mapsto> p\<lparr>status := ''entered''\<rparr>)\<rparr>)"
    using monitor_positions_transition [where ev = ?P and k = "KStr ''P''" and st = held_state
        and now = 102] dp by blast
  from this [rule_format, of ?sg] p et stt
  have late: "monitor_positions 102 ?P held_state =
      Inr (held_state\<lparr>active_positions :=
             (active_positions held_state)(KStr ''P'' \<mapsto> ?sg\<lparr>status := ''entered''\<rparr>)\<rparr>)"
    by simp
  have "active_positions held_state (KStr ''Q'') = None \<longrightarrow>
          monitor_positions 500 ?Q held_state = Inr held_state"
    using monitor_positions_transition [where ev = ?Q and k = "KStr ''Q''" and st = held_state
        and now = 500] dq by blast
  with q have other: "monitor_positions 500 ?Q held_state = Inr held_state" by blast
  have ex: "\<exists>st'. monitor_positions 102 ?P held_state = Inr st' \<and>
          map_option status (active_positions st' (KStr ''P'')) = Some ''entered'' \<and>
          dom (active_positions st') = dom (active_positions held_state)"
  proof (intro exI conjI)
    show "monitor_positions 102 ?P held_state =
      Inr (held_state\<lparr>active_positions :=
             (active_positions held_state)(KStr ''P'' \<mapsto> ?sg\<lparr>status := ''entered''\<rparr>)\<rparr>)"
      by (rule late)
    show "map_option status
            (active_positions
               (held_state\<lparr>active_positions :=
                  (active_positions held_state)(KStr ''P'' \<mapsto> ?sg\<lparr>status := ''entered''\<rparr>)\<rparr>)
               (KStr ''P'')) = Some ''entered''"
      by simp
    show "dom (active_positions
                (held_state\<lparr>active_positions :=
                   (active_positions held_state)(KStr ''P'' \<mapsto> ?sg\<lparr>status := ''entered''\<rparr>)\<rparr>))
            = dom (active_positions held_state)"
      using p by auto
  qed
  have a1: "map_option entry_time (active_positions held_state (KStr ''P'')) = Some 102"
    using p et by simp
  have a2: "map_option status (active_positions held_state (KStr ''P'')) = Some ''pending''"
    using p stt by simp
  from d1 d2 d3 a1 a2 early ex q other show ?thesis by blast
qed

section \<open>Claims about the numeric coercion\<close>










end
